theory Spec2Isabelle
  imports Main "HOL-Library.Word" "HOL-Library.Monad_Syntax"
begin

unbundle bit_operations_syntax

section \<open>Bytes, slices and errors\<close>

text \<open>
  The handshake code of \<^verbatim>\<open>internal/server/TLS.go\<close> works on Go byte slices. The parsers
  only read their input, so a slice is modelled by the list of its bytes; Go's \<^verbatim>\<open>int\<close>
  values are the lengths and offsets of these slices, far from the bounds of \<^verbatim>\<open>int\<close>, and
  are natural numbers here. A run-time panic (index or slice bounds out of range, a
  negative length given to \<^verbatim>\<open>make\<close>) is the value \<open>None\<close> of the operation that raises
  it.
\<close>

type_synonym byte = "8 word"

text \<open>
  The errors of the file, one constructor for each message: \<open>Malformed Extensions\<close>,
  \<open>malformed key_share\<close>, \<open>key share length should be 32, instead of n\<close>,
  \<open>x25519 does not exist\<close>, \<open>Malformed ClientHello\<close>, \<open>Not a ClientHello\<close>,
  \<open>Hello length doesn't match\<close>, and the three package variables \<^verbatim>\<open>ErrBadClientHello\<close>,
  \<^verbatim>\<open>ErrNotCloak\<close> and \<^verbatim>\<open>ErrBadProxyMethod\<close>. \<open>Foreign\<close> is an error of a collaborator
  (the authentication, the connection).
\<close>

datatype error =
    Malformed_Extensions
  | Malformed_key_share
  | Key_share_length nat
  | X25519_does_not_exist
  | Malformed_ClientHello
  | Not_a_ClientHello
  | Hello_length_mismatch
  | ErrBadClientHello
  | ErrNotCloak
  | ErrBadProxyMethod
  | Foreign string

text \<open>\<^verbatim>\<open>s[lo:hi]\<close>, \<^verbatim>\<open>s[lo:]\<close> and \<^verbatim>\<open>s[i]\<close>, with their bounds checks.\<close>

definition subslice :: "byte list \<Rightarrow> nat \<Rightarrow> nat \<Rightarrow> byte list option" where
  "subslice s lo hi =
     (if lo \<le> hi \<and> hi \<le> length s then Some (take (hi - lo) (drop lo s)) else None)"

definition slice_from :: "byte list \<Rightarrow> nat \<Rightarrow> byte list option" where
  "slice_from s lo = (if lo \<le> length s then Some (drop lo s) else None)"

definition byte_at :: "byte list \<Rightarrow> nat \<Rightarrow> byte option" where
  "byte_at s i = (if i < length s then Some (s ! i) else None)"

text \<open>
  \<^verbatim>\<open>binary.BigEndian.Uint16\<close> and \<^verbatim>\<open>Uint32\<close>, read as numbers; both panic on a slice
  that is too short. \<^verbatim>\<open>PutUint16\<close> writes the two bytes of a 16-bit value.
\<close>

fun u16 :: "byte list \<Rightarrow> nat option" where
  "u16 (b0 # b1 # _) = Some (unat b0 * 256 + unat b1)"
| "u16 _ = None"

fun u32 :: "byte list \<Rightarrow> nat option" where
  "u32 (b0 # b1 # b2 # b3 # _) =
     Some (unat b0 * 16777216 + unat b1 * 65536 + unat b2 * 256 + unat b3)"
| "u32 _ = None"

definition PutUint16 :: "nat \<Rightarrow> byte list" where
  "PutUint16 v = [of_nat (v div 256), of_nat (v mod 256)]"

text \<open>
  \<^verbatim>\<open>copy(ret[lo:hi], src)\<close>: the first \<open>min (hi - lo) (length src)\<close> bytes of \<open>src\<close>
  overwrite \<open>ret\<close> from offset \<open>lo\<close>.
\<close>

definition copy_to :: "byte list \<Rightarrow> nat \<Rightarrow> nat \<Rightarrow> byte list \<Rightarrow> byte list" where
  "copy_to ret lo hi src =
     (let n = min (hi - lo) (length src)
      in take lo ret @ take n src @ drop (lo + n) ret)"

section \<open>Record layer\<close>

text \<open>
  \<^verbatim>\<open>addRecordLayer\<close>: the length field is \<^verbatim>\<open>uint16(len(input))\<close>, the conversion keeping
  the low 16 bits.
\<close>

definition addRecordLayer :: "byte list \<Rightarrow> byte list \<Rightarrow> byte list \<Rightarrow> byte list" where
  "addRecordLayer input typ ver =
     (let len = PutUint16 (length input mod 65536);
          ret = replicate (5 + length input) 0;
          ret = copy_to ret 0 1 typ;
          ret = copy_to ret 1 3 ver;
          ret = copy_to ret 3 5 len;
          ret = copy_to ret 5 (5 + length input) input
      in ret)"

section \<open>Extension decoder\<close>

text \<open>
  A function with a deferred \<^verbatim>\<open>recover\<close> returns the current values of its named results
  when its body panics. The exit of a loop therefore carries the value the named result
  \<^verbatim>\<open>ret\<close> has at that moment, whether the loop ran to its end or panicked.
\<close>

datatype 'a exit = Return 'a | Panic 'a

type_synonym extensions_map = "byte \<times> byte \<rightharpoonup> byte list"

text \<open>\<^verbatim>\<open>copy(typ[:], b)\<close> into a \<^verbatim>\<open>[2]byte\<close>, for a two-byte slice \<open>b\<close>.\<close>

definition tag_of :: "byte list \<Rightarrow> byte \<times> byte" where
  "tag_of b = (b ! 0, b ! 1)"

text \<open>
  The loop of \<^verbatim>\<open>parseExtensions\<close>. Its caller hands it \<^verbatim>\<open>peeled[pointer:]\<close>, a slice of a
  buffer made with equal length and capacity, so that every slice expression is bounded
  by the length of \<open>input\<close>. The entry is stored in the map after its three reads.
\<close>

function parseExtensions_loop ::
  "byte list \<Rightarrow> nat \<Rightarrow> extensions_map \<Rightarrow> extensions_map exit" where
  "parseExtensions_loop input pointer ret =
     (if pointer < length input then
        (case subslice input pointer (pointer + 2) of
           None \<Rightarrow> Panic ret
         | Some typ \<Rightarrow>
             (case subslice input (pointer + 2) (pointer + 4) of
                None \<Rightarrow> Panic ret
              | Some lb \<Rightarrow>
                  (case u16 lb of
                     None \<Rightarrow> Panic ret
                   | Some len \<Rightarrow>
                       (case subslice input (pointer + 4) (pointer + 4 + len) of
                          None \<Rightarrow> Panic ret
                        | Some data \<Rightarrow>
                            parseExtensions_loop input (pointer + 4 + len)
                              (ret(tag_of typ \<mapsto> data))))))
      else Return ret)"
  by pat_completeness auto
termination
  by (relation "measure (\<lambda>(input, pointer, ret). length input - pointer)")
     (auto simp: subslice_def split: if_splits)

declare parseExtensions_loop.simps [simp del]

definition parseExtensions :: "byte list \<Rightarrow> extensions_map \<times> error option" where
  "parseExtensions input =
     (case parseExtensions_loop input 0 Map.empty of
        Return ret \<Rightarrow> (ret, None)
      | Panic ret \<Rightarrow> (ret, Some Malformed_Extensions))"

section \<open>Key-share extractor\<close>

text \<open>
  \<^verbatim>\<open>parseKeyShare\<close> never consults \<^verbatim>\<open>len(input)\<close>: it only takes slice expressions, which Go
  bounds by the capacity. The list \<open>input\<close> stands for the bytes of the slice up to its
  capacity. The named result \<^verbatim>\<open>ret\<close> is still nil when the body panics; a nil slice is
  \<open>None\<close>.
\<close>

function parseKeyShare_loop ::
  "byte list \<Rightarrow> nat \<Rightarrow> nat \<Rightarrow> (byte list option \<times> error option) option" where
  "parseKeyShare_loop input totalLen pointer =
     (if pointer < totalLen then
        (case subslice input pointer (pointer + 2) of
           None \<Rightarrow> None
         | Some grp \<Rightarrow>
             if [0x00, 0x1d] = grp then
               (case subslice input (pointer + 2) (pointer + 4) of
                  None \<Rightarrow> None
                | Some lb \<Rightarrow>
                    (case u16 lb of
                       None \<Rightarrow> None
                     | Some len \<Rightarrow>
                         if len \<noteq> 32 then Some (None, Some (Key_share_length len))
                         else
                           (case subslice input (pointer + 4) (pointer + 4 + len) of
                              None \<Rightarrow> None
                            | Some key \<Rightarrow> Some (Some key, None))))
             else
               (case subslice input (pointer + 2) (pointer + 4) of
                  None \<Rightarrow> None
                | Some lb \<Rightarrow>
                    (case u16 lb of
                       None \<Rightarrow> None
                     | Some len \<Rightarrow>
                         (case subslice input (pointer + 4) (pointer + 4 + len) of
                            None \<Rightarrow> None
                          | Some skipped \<Rightarrow>
                              parseKeyShare_loop input totalLen (pointer + 4 + len)))))
      else Some (None, Some X25519_does_not_exist))"
  by pat_completeness auto
termination
  by (relation "measure (\<lambda>(input, totalLen, pointer). totalLen - pointer)") auto

declare parseKeyShare_loop.simps [simp del]

definition parseKeyShare_body ::
  "byte list \<Rightarrow> (byte list option \<times> error option) option" where
  "parseKeyShare_body input =
     (case subslice input 0 2 of
        None \<Rightarrow> None
      | Some tb \<Rightarrow>
          (case u16 tb of
             None \<Rightarrow> None
           | Some totalLen \<Rightarrow> parseKeyShare_loop input totalLen 2))"

definition parseKeyShare :: "byte list \<Rightarrow> byte list option \<times> error option" where
  "parseKeyShare input =
     (case parseKeyShare_body input of
        None \<Rightarrow> (None, Some Malformed_key_share)
      | Some r \<Rightarrow> r)"

section \<open>ClientHello parser\<close>

record ClientHello =
  handshakeType :: byte
  length_ch :: nat
  clientVersion :: "byte list"
  random_ch :: "byte list"
  sessionIdLen :: nat
  sessionId :: "byte list"
  cipherSuitesLen :: nat
  cipherSuites :: "byte list"
  compressionMethodsLen :: nat
  compressionMethods :: "byte list"
  extensionsLen :: nat
  extensions :: extensions_map

text \<open>
  The body of \<^verbatim>\<open>parseClientHello\<close>; \<open>None\<close> is a panic of the body itself. The pointer
  \<^verbatim>\<open>ret\<close> is nil (\<open>None\<close>) until the last statement, and \<^verbatim>\<open>err\<close> is whatever
  \<^verbatim>\<open>parseExtensions\<close> returned: \<^verbatim>\<open>extensions, err := parseExtensions(...)\<close> assigns the
  named result.
\<close>

definition parseClientHello_body ::
  "byte list \<Rightarrow> (ClientHello option \<times> error option) option" where
  "parseClientHello_body data = do {
     peeled \<leftarrow> (if length data < 5 then None else slice_from data 5);
     let pointer = 0;
     handshakeType \<leftarrow> byte_at peeled pointer;
     if handshakeType \<noteq> 0x01 then Some (None, Some Not_a_ClientHello)
     else do {
       let pointer = pointer + 1;
       lb \<leftarrow> subslice peeled pointer (pointer + 3);
       len \<leftarrow> u32 (0x00 # lb);
       let pointer = pointer + 3;
       rest \<leftarrow> slice_from peeled pointer;
       if len \<noteq> length rest then Some (None, Some Hello_length_mismatch)
       else do {
         clientVersion \<leftarrow> subslice peeled pointer (pointer + 2);
         let pointer = pointer + 2;
         random \<leftarrow> subslice peeled pointer (pointer + 32);
         let pointer = pointer + 32;
         sessionIdLen \<leftarrow> map_option unat (byte_at peeled pointer);
         let pointer = pointer + 1;
         sessionId \<leftarrow> subslice peeled pointer (pointer + sessionIdLen);
         let pointer = pointer + sessionIdLen;
         cb \<leftarrow> subslice peeled pointer (pointer + 2);
         cipherSuitesLen \<leftarrow> u16 cb;
         let pointer = pointer + 2;
         cipherSuites \<leftarrow> subslice peeled pointer (pointer + cipherSuitesLen);
         let pointer = pointer + cipherSuitesLen;
         compressionMethodsLen \<leftarrow> map_option unat (byte_at peeled pointer);
         let pointer = pointer + 1;
         compressionMethods \<leftarrow> subslice peeled pointer (pointer + compressionMethodsLen);
         let pointer = pointer + compressionMethodsLen;
         eb \<leftarrow> subslice peeled pointer (pointer + 2);
         extensionsLen \<leftarrow> u16 eb;
         let pointer = pointer + 2;
         tail \<leftarrow> slice_from peeled pointer;
         let (extensions, err) = parseExtensions tail;
         Some (Some \<lparr>handshakeType = handshakeType, length_ch = len,
                      clientVersion = clientVersion, random_ch = random,
                      sessionIdLen = sessionIdLen, sessionId = sessionId,
                      cipherSuitesLen = cipherSuitesLen, cipherSuites = cipherSuites,
                      compressionMethodsLen = compressionMethodsLen,
                      compressionMethods = compressionMethods,
                      extensionsLen = extensionsLen, extensions = extensions\<rparr>, err)
       }
     }
   }"

definition parseClientHello :: "byte list \<Rightarrow> ClientHello option \<times> error option" where
  "parseClientHello data =
     (case parseClientHello_body data of
        None \<Rightarrow> (None, Some Malformed_ClientHello)
      | Some r \<Rightarrow> r)"

section \<open>ServerHello composer\<close>

text \<open>
  \<^verbatim>\<open>xor\<close> writes into its first argument: \<^verbatim>\<open>for i := range a { a[i] ^= b[i] }\<close>. The
  function returns the new contents of \<open>a\<close>; reading \<^verbatim>\<open>b[i]\<close> beyond the length of
  \<open>b\<close> panics. The first argument of \<open>xor_from\<close> counts the iterations left.
\<close>

fun xor_from :: "nat \<Rightarrow> nat \<Rightarrow> byte list \<Rightarrow> byte list \<Rightarrow> byte list option" where
  "xor_from 0 i a b = Some a"
| "xor_from (Suc n) i a b =
     (if i < length b then xor_from n (i + 1) (a[i := a ! i XOR b ! i]) b else None)"

definition xor_bytes :: "byte list \<Rightarrow> byte list \<Rightarrow> byte list option" where
  "xor_bytes a b = xor_from (length a) 0 a b"

text \<open>
  \<^verbatim>\<open>composeServerHello\<close>. The buffers are held by value, each an array of its own; the
  shared secret is the one buffer the function writes to, and its new contents are
  returned with the message. \<open>rnd i\<close> is the byte \<^verbatim>\<open>rand.Read\<close> puts at index \<open>i\<close>
  of the 32-byte \<^verbatim>\<open>keyExchange\<close>.
\<close>

definition composeServerHello ::
  "byte list \<Rightarrow> byte list \<Rightarrow> byte list \<Rightarrow> (nat \<Rightarrow> byte) \<Rightarrow> (byte list \<times> byte list) option" where
  "composeServerHello sid sharedSecret sessionKey rnd =
     (case xor_bytes sharedSecret sessionKey of
        None \<Rightarrow> None
      | Some sharedSecret \<Rightarrow>
          (let keyShare = [0x00, 0x33, 0x00, 0x24, 0x00, 0x1d, 0x00, 0x20];
               keyExchange = map rnd [0..<32];
               serverHello =
                 [[0x02],
                  [0x00, 0x00, 0x76],
                  [0x03, 0x03],
                  sharedSecret,
                  [0x20],
                  sid,
                  [0xc0, 0x30],
                  [0x00],
                  [0x00, 0x2e],
                  keyShare @ keyExchange,
                  [0x00, 0x2b, 0x00, 0x02, 0x03, 0x04]]
           in Some (sharedSecret, concat serverHello)))"

text \<open>
  \<^verbatim>\<open>composeReply\<close> reads \<^verbatim>\<open>ch.sessionId\<close> through the pointer \<^verbatim>\<open>ch\<close>; a nil pointer
  panics.
\<close>

definition composeReply ::
  "ClientHello option \<Rightarrow> byte list \<Rightarrow> byte list \<Rightarrow> (nat \<Rightarrow> byte) \<Rightarrow> (byte list \<times> byte list) option" where
  "composeReply ch sharedSecret sessionKey rnd =
     (case ch of
        None \<Rightarrow> None
      | Some c \<Rightarrow>
          (case composeServerHello (sessionId c) sharedSecret sessionKey rnd of
             None \<Rightarrow> None
           | Some (sharedSecret, sh) \<Rightarrow>
               (let TLS12 = [0x03, 0x03];
                    shBytes = addRecordLayer sh [0x16] TLS12;
                    ccsBytes = addRecordLayer [0x01] [0x14] TLS12
                in Some (sharedSecret, shBytes @ ccsBytes))))"

section \<open>Connection preparer\<close>

text \<open>
  \<^verbatim>\<open>TouchStone\<close> and the type \<^verbatim>\<open>State\<close> are declared elsewhere in the package.
  \<^verbatim>\<open>TouchStone\<close> is a parameter of the model, returning the six results of the call;
  of \<^verbatim>\<open>State\<close> only the field \<^verbatim>\<open>ProxyBook\<close> is used, a map keyed by the proxy method.
  Logging is left out.
\<close>

record touched =
  t_UID :: "byte list"
  t_sessionID :: "32 word"
  t_proxyMethod :: string
  t_encryptionMethod :: byte
  t_sharedSecret :: "byte list"
  t_err :: "error option"

record 'a State =
  ProxyBook :: "string \<rightharpoonup> 'a"

text \<open>
  The closure \<^verbatim>\<open>finisher\<close> is the pair of the variables it captures and reads, the pointer
  \<^verbatim>\<open>ch\<close> and the slice \<^verbatim>\<open>sharedSecret\<close>; the connection is the world it writes to.
\<close>

datatype finisher = Finisher "ClientHello option" "byte list"

record prepared =
  UID :: "byte list"
  sessionID :: "32 word"
  proxyMethod :: string
  encryptionMethod :: byte
  finisher :: "finisher option"
  err :: "error option"

definition PrepareConnection ::
  "byte list \<Rightarrow> 'a State \<Rightarrow> (ClientHello option \<Rightarrow> 'a State \<Rightarrow> touched) \<Rightarrow> prepared" where
  "PrepareConnection firstPacket sta TouchStone =
     (case parseClientHello firstPacket of
        (ch, Some e) \<Rightarrow>
          \<lparr>UID = [], sessionID = 0, proxyMethod = [], encryptionMethod = 0,
           finisher = None, err = Some ErrBadClientHello\<rparr>
      | (ch, None) \<Rightarrow>
          (let t = TouchStone ch sta;
               r = \<lparr>UID = t_UID t, sessionID = t_sessionID t, proxyMethod = t_proxyMethod t,
                    encryptionMethod = t_encryptionMethod t, finisher = None, err = t_err t\<rparr>
           in if t_err t \<noteq> None then r\<lparr>err := Some ErrNotCloak\<rparr>
              else if ProxyBook sta (t_proxyMethod t) = None then r\<lparr>err := Some ErrBadProxyMethod\<rparr>
              else r\<lparr>finisher := Some (Finisher ch (t_sharedSecret t))\<rparr>))"



section \<open>Wire format of tagged entries\<close>

text \<open>
  An extension and a key-share entry have the same shape on the wire: a two-byte tag, a
  two-byte big-endian length and a body of that length. \<open>entry_bytes\<close> writes one
  entry, \<open>store_entries\<close> is the map after storing entries in order (a later entry
  replaces an earlier one of the same tag), and \<open>overruns\<close> tells that a non-empty
  remainder is too short for the entry it starts: for its tag, its length field or its
  declared body. They describe inputs of the decoders and are no functions of the
  program.
\<close>

type_synonym entry = "(byte \<times> byte) \<times> byte list"

definition entry_bytes :: "entry \<Rightarrow> byte list" where
  "entry_bytes e = [fst (fst e), snd (fst e)] @ PutUint16 (length (snd e)) @ snd e"

definition entries_bytes :: "entry list \<Rightarrow> byte list" where
  "entries_bytes es = concat (map entry_bytes es)"

definition store_entries :: "entry list \<Rightarrow> extensions_map \<Rightarrow> extensions_map" where
  "store_entries es m = fold (\<lambda>e m. m(fst e \<mapsto> snd e)) es m"

definition overruns :: "byte list \<Rightarrow> bool" where
  "overruns rest =
     (rest \<noteq> [] \<and>
      (length rest < 4 \<or> length rest < 4 + (unat (rest ! 2) * 256 + unat (rest ! 3))))"

section \<open>Concrete inputs\<close>

text \<open>
  A ClientHello record of 126 bytes: the record header, handshake type 1, body length
  117, version, 32 random bytes, a 32-byte session id, one cipher suite, the null
  compression method and one extension, \<open>key_share\<close> (tag \<open>0x0033\<close>), whose body holds
  one x25519 entry of 32 bytes.
\<close>

definition sample_public :: "byte list" where
  "sample_public =
     [0xcc, 0xcc, 0xcc, 0xcc, 0xcc, 0xcc, 0xcc, 0xcc, 0xcc, 0xcc, 0xcc, 0xcc, 0xcc, 0xcc,
      0xcc, 0xcc, 0xcc, 0xcc, 0xcc, 0xcc, 0xcc, 0xcc, 0xcc, 0xcc, 0xcc, 0xcc, 0xcc, 0xcc,
      0xcc, 0xcc, 0xcc, 0xcc]"

definition sample_key_share :: "byte list" where
  "sample_key_share =
     [0x00, 0x24, 0x00, 0x1d, 0x00, 0x20, 0xcc, 0xcc, 0xcc, 0xcc, 0xcc, 0xcc, 0xcc, 0xcc,
      0xcc, 0xcc, 0xcc, 0xcc, 0xcc, 0xcc, 0xcc, 0xcc, 0xcc, 0xcc, 0xcc, 0xcc, 0xcc, 0xcc,
      0xcc, 0xcc, 0xcc, 0xcc, 0xcc, 0xcc, 0xcc, 0xcc, 0xcc, 0xcc]"

definition sample_hello :: "byte list" where
  "sample_hello =
     [0x16, 0x03, 0x01, 0x00, 0x79, 0x01, 0x00, 0x00, 0x75, 0x03, 0x03, 0xaa, 0xaa, 0xaa,
      0xaa, 0xaa, 0xaa, 0xaa, 0xaa, 0xaa, 0xaa, 0xaa, 0xaa, 0xaa, 0xaa, 0xaa, 0xaa, 0xaa,
      0xaa, 0xaa, 0xaa, 0xaa, 0xaa, 0xaa, 0xaa, 0xaa, 0xaa, 0xaa, 0xaa, 0xaa, 0xaa, 0xaa,
      0xaa, 0x20, 0xbb, 0xbb, 0xbb, 0xbb, 0xbb, 0xbb, 0xbb, 0xbb, 0xbb, 0xbb, 0xbb, 0xbb,
      0xbb, 0xbb, 0xbb, 0xbb, 0xbb, 0xbb, 0xbb, 0xbb, 0xbb, 0xbb, 0xbb, 0xbb, 0xbb, 0xbb,
      0xbb, 0xbb, 0xbb, 0xbb, 0xbb, 0xbb, 0x00, 0x02, 0xc0, 0x30, 0x01, 0x00, 0x00, 0x2a,
      0x00, 0x33, 0x00, 0x26, 0x00, 0x24, 0x00, 0x1d, 0x00, 0x20, 0xcc, 0xcc, 0xcc, 0xcc,
      0xcc, 0xcc, 0xcc, 0xcc, 0xcc, 0xcc, 0xcc, 0xcc, 0xcc, 0xcc, 0xcc, 0xcc, 0xcc, 0xcc,
      0xcc, 0xcc, 0xcc, 0xcc, 0xcc, 0xcc, 0xcc, 0xcc, 0xcc, 0xcc, 0xcc, 0xcc, 0xcc, 0xcc]"

definition sample_ch :: ClientHello where
  "sample_ch =
     \<lparr>handshakeType = 0x01, length_ch = 117, clientVersion = [0x03, 0x03],
      random_ch =
        [0xaa, 0xaa, 0xaa, 0xaa, 0xaa, 0xaa, 0xaa, 0xaa, 0xaa, 0xaa, 0xaa, 0xaa, 0xaa,
         0xaa, 0xaa, 0xaa, 0xaa, 0xaa, 0xaa, 0xaa, 0xaa, 0xaa, 0xaa, 0xaa, 0xaa, 0xaa,
         0xaa, 0xaa, 0xaa, 0xaa, 0xaa, 0xaa],
      sessionIdLen = 32,
      sessionId =
        [0xbb, 0xbb, 0xbb, 0xbb, 0xbb, 0xbb, 0xbb, 0xbb, 0xbb, 0xbb, 0xbb, 0xbb, 0xbb,
         0xbb, 0xbb, 0xbb, 0xbb, 0xbb, 0xbb, 0xbb, 0xbb, 0xbb, 0xbb, 0xbb, 0xbb, 0xbb,
         0xbb, 0xbb, 0xbb, 0xbb, 0xbb, 0xbb],
      cipherSuitesLen = 2, cipherSuites = [0xc0, 0x30],
      compressionMethodsLen = 1, compressionMethods = [0x00],
      extensionsLen = 42,
      extensions = [(0x00, 0x33) \<mapsto> sample_key_share]\<rparr>"

text \<open>A shared secret and a session key of 32 bytes each.\<close>

definition sample_secret :: "byte list" where
  "sample_secret =
     [0x5a, 0x5a, 0x5a, 0x5a, 0x5a, 0x5a, 0x5a, 0x5a, 0x5a, 0x5a, 0x5a, 0x5a, 0x5a, 0x5a,
      0x5a, 0x5a, 0x5a, 0x5a, 0x5a, 0x5a, 0x5a, 0x5a, 0x5a, 0x5a, 0x5a, 0x5a, 0x5a, 0x5a,
      0x5a, 0x5a, 0x5a, 0x5a]"

definition sample_key :: "byte list" where
  "sample_key =
     [0x0f, 0x0f, 0x0f, 0x0f, 0x0f, 0x0f, 0x0f, 0x0f, 0x0f, 0x0f, 0x0f, 0x0f, 0x0f, 0x0f,
      0x0f, 0x0f, 0x0f, 0x0f, 0x0f, 0x0f, 0x0f, 0x0f, 0x0f, 0x0f, 0x0f, 0x0f, 0x0f, 0x0f,
      0x0f, 0x0f, 0x0f, 0x0f]"


text \<open>Two outputs of the random generator and a connection that accepts every write.\<close>

definition rnd_zero :: "nat \<Rightarrow> byte" where
  "rnd_zero i = 0x00"

definition rnd_one :: "nat \<Rightarrow> byte" where
  "rnd_one i = 0x01"


text \<open>
  Two authentication collaborators, one that rejects and one that accepts and asks for
  the proxy method \<open>shadowsocks\<close>; a server with no proxy backend and one with that
  backend; a first packet too short to hold a record header.
\<close>

definition touch_reject :: "ClientHello option \<Rightarrow> unit State \<Rightarrow> touched" where
  "touch_reject ch sta =
     \<lparr>t_UID = [], t_sessionID = 0, t_proxyMethod = [], t_encryptionMethod = 0,
      t_sharedSecret = [], t_err = Some (Foreign ''unexpected ticket'')\<rparr>"

definition touch_accept :: "ClientHello option \<Rightarrow> unit State \<Rightarrow> touched" where
  "touch_accept ch sta =
     \<lparr>t_UID = [0x01, 0x02], t_sessionID = 7, t_proxyMethod = ''shadowsocks'',
      t_encryptionMethod = 0x01, t_sharedSecret = sample_secret, t_err = None\<rparr>"

definition state_no_proxy :: "unit State" where
  "state_no_proxy = \<lparr>ProxyBook = Map.empty\<rparr>"

definition state_shadowsocks :: "unit State" where
  "state_shadowsocks = \<lparr>ProxyBook = [''shadowsocks'' \<mapsto> ()]\<rparr>"

definition short_packet :: "byte list" where
  "short_packet = [0x16, 0x03, 0x01]"

text \<open>
  A ClientHello cut off one byte after its length field, which declares 5 bytes; the
  same bytes under handshake type 2; and a ClientHello whose extension block is a single
  dangling byte.
\<close>

definition truncated_hello :: "byte list" where
  "truncated_hello = [0x16, 0x03, 0x01, 0x00, 0x05, 0x01, 0x00, 0x00, 0x05, 0x03]"

definition server_hello :: "byte list" where
  "server_hello = [0x16, 0x03, 0x01, 0x00, 0x05, 0x02, 0x00, 0x00, 0x05, 0x03]"



text \<open>
  An extension block of one complete extension, tag \<open>000a\<close> with the one-byte body
  \<open>ff\<close>, followed by an extension that declares four body bytes and has one.
\<close>

definition complete_extensions :: "entry list" where
  "complete_extensions = [((0x00, 0x0a), [0xff])]"

definition dangling_extension :: "byte list" where
  "dangling_extension = [0x00, 0x0b, 0x00, 0x04, 0x01]"

definition overrun_extensions :: "byte list" where
  "overrun_extensions = [0x00, 0x0a, 0x00, 0x01, 0xff, 0x00, 0x0b, 0x00, 0x04, 0x01]"

text \<open>A key-share entry of another group (secp256r1, \<open>0017\<close>) with a three-byte value.\<close>

definition other_shares :: "entry list" where
  "other_shares = [((0x00, 0x17), [0x01, 0x02, 0x03])]"

section \<open>Properties of the record layer\<close>

lemma length_copy_to:
  "hi \<le> length ret \<Longrightarrow> length (copy_to ret lo hi src) = length ret"
  by (auto simp: copy_to_def Let_def min_def)

lemma u16_PutUint16: "v < 65536 \<Longrightarrow> u16 (PutUint16 v) = Some v"
proof -
  assume v: "v < 65536"
  then have d: "v div 256 < 256" by simp
  have "unat (of_nat (v div 256) :: byte) = v div 256"
    using d by (simp add: unat_of_nat)
  moreover have "unat (of_nat (v mod 256) :: byte) = v mod 256"
    by (simp add: unat_of_nat)
  ultimately show ?thesis
    by (simp add: PutUint16_def)
qed

lemma PutUint16_u16:
  "PutUint16 (unat c * 256 + unat d) = [c, d]"
proof -
  have "unat d < 2 ^ LENGTH(8)" by (rule unsigned_less)
  then have "unat d < 256" by simp
  then show ?thesis by (simp add: PutUint16_def)
qed

lemma copy_to_full:
  "lo \<le> hi \<Longrightarrow> hi \<le> length ret \<Longrightarrow> length src = hi - lo \<Longrightarrow>
   copy_to ret lo hi src = take lo ret @ src @ drop hi ret"
  by (simp add: copy_to_def Let_def)

lemma length_PutUint16: "length (PutUint16 v) = 2"
  by (simp add: PutUint16_def)

lemma addRecordLayer_tail:
  "drop 3 (addRecordLayer input typ ver) = PutUint16 (length input mod 65536) @ input"
proof -
  define r0 :: "byte list" where "r0 = replicate (5 + length input) 0"
  define r1 where "r1 = copy_to r0 0 1 typ"
  define r2 where "r2 = copy_to r1 1 3 ver"
  define r3 where "r3 = copy_to r2 3 5 (PutUint16 (length input mod 65536))"
  define r4 where "r4 = copy_to r3 5 (5 + length input) input"
  have l0: "length r0 = 5 + length input" by (simp add: r0_def)
  have l1: "length r1 = 5 + length input" by (simp add: r1_def length_copy_to l0)
  have l2: "length r2 = 5 + length input" by (simp add: r2_def length_copy_to l1)
  have l3: "length r3 = 5 + length input" by (simp add: r3_def length_copy_to l2)
  have e3: "r3 = take 3 r2 @ PutUint16 (length input mod 65536) @ drop 5 r2"
    unfolding r3_def by (rule copy_to_full) (simp_all add: l2 length_PutUint16)
  have e4: "r4 = take 5 r3 @ input @ drop (5 + length input) r3"
    unfolding r4_def by (rule copy_to_full) (simp_all add: l3)
  have "drop 3 r4 = drop 3 (take 5 r3) @ input"
    by (simp add: e4 l3)
  also have "drop 3 (take 5 r3) = PutUint16 (length input mod 65536)"
    by (simp add: e3 l2 length_PutUint16)
  finally have "drop 3 r4 = PutUint16 (length input mod 65536) @ input" .
  moreover have "addRecordLayer input typ ver = r4"
    by (simp add: addRecordLayer_def Let_def r4_def r3_def r2_def r1_def r0_def)
  ultimately show ?thesis by simp
qed

lemma length_addRecordLayer:
  "length (addRecordLayer input typ ver) = 5 + length input"
  by (simp add: addRecordLayer_def Let_def length_copy_to)

lemma addRecordLayer_exact:
  assumes "length typ = 1" and "length ver = 2"
  shows "addRecordLayer input typ ver = typ @ ver @ PutUint16 (length input mod 65536) @ input"
proof -
  define r0 :: "byte list" where "r0 = replicate (5 + length input) 0"
  define r1 where "r1 = copy_to r0 0 1 typ"
  define r2 where "r2 = copy_to r1 1 3 ver"
  have l0: "length r0 = 5 + length input" by (simp add: r0_def)
  have l1: "length r1 = 5 + length input" by (simp add: r1_def length_copy_to l0)
  have l2: "length r2 = 5 + length input" by (simp add: r2_def length_copy_to l1)
  have e1: "r1 = take 0 r0 @ typ @ drop 1 r0"
    unfolding r1_def by (rule copy_to_full) (simp_all add: l0 assms)
  have e2: "r2 = take 1 r1 @ ver @ drop 3 r1"
    unfolding r2_def by (rule copy_to_full) (simp_all add: l1 assms)
  have "take 3 r2 = typ @ ver"
    by (simp add: e2 e1 assms)
  moreover have "take 3 r2 = take 3 (addRecordLayer input typ ver)"
    by (simp add: addRecordLayer_def Let_def r2_def r1_def r0_def copy_to_def)
  ultimately have "take 3 (addRecordLayer input typ ver) = typ @ ver" by simp
  then have "take 3 (addRecordLayer input typ ver) @ drop 3 (addRecordLayer input typ ver)
              = (typ @ ver) @ PutUint16 (length input mod 65536) @ input"
    by (simp only: addRecordLayer_tail)
  then show ?thesis by simp
qed

text \<open>
  Claim C10. For every payload, \<^verbatim>\<open>addRecordLayer\<close> writes the payload's length modulo
  \<open>2^16\<close>, big-endian, into bytes 3 and 4 of the header and appends the whole payload
  after the five header bytes; the function has no error result. For a payload of 65536
  bytes or more the declared length differs from the length of the payload that follows.
\<close>

theorem addRecordLayer_wraps:
  "take 2 (drop 3 (addRecordLayer input typ ver)) = PutUint16 (length input mod 2 ^ 16) \<and>
   u16 (take 2 (drop 3 (addRecordLayer input typ ver))) = Some (length input mod 2 ^ 16) \<and>
   drop 5 (addRecordLayer input typ ver) = input \<and>
   (65536 \<le> length input \<longrightarrow>
      u16 (take 2 (drop 3 (addRecordLayer input typ ver))) \<noteq>
      Some (length (drop 5 (addRecordLayer input typ ver))))"
proof -
  have a: "take 2 (drop 3 (addRecordLayer input typ ver)) = PutUint16 (length input mod 65536)"
    by (simp add: addRecordLayer_tail length_PutUint16)
  have b: "u16 (PutUint16 (length input mod 65536)) = Some (length input mod 65536)"
    by (rule u16_PutUint16) simp
  have c: "drop 5 (addRecordLayer input typ ver) = input"
  proof -
    have "drop 2 (drop 3 (addRecordLayer input typ ver)) =
          drop 2 (PutUint16 (length input mod 65536) @ input)"
      by (simp only: addRecordLayer_tail)
    then show ?thesis by (simp add: length_PutUint16)
  qed
  have d: "65536 \<le> length input \<Longrightarrow> length input mod 65536 \<noteq> length input"
    by simp
  show ?thesis
    using d by (simp add: a b c)
qed

theorem addRecordLayer_wraps_witness:
  "65536 \<le> length (replicate 65536 (0::byte)) \<and>
   u16 (take 2 (drop 3 (addRecordLayer (replicate 65536 0) [0x16] [0x03, 0x03]))) = Some 0 \<and>
   length (drop 5 (addRecordLayer (replicate 65536 0) [0x16] [0x03, 0x03])) = 65536"
  using addRecordLayer_wraps [of "replicate 65536 0" "[0x16]" "[0x03, 0x03]"]
  by (simp add: PutUint16_def)

section \<open>Properties of the composer\<close>

lemma xor_from_Some:
  "i + n = length a \<Longrightarrow> length a \<le> length b \<Longrightarrow>
   xor_from n i a b = Some (take i a @ map2 (XOR) (drop i a) (drop i b))"
proof (induction n arbitrary: i a)
  case 0
  then show ?case by simp
next
  case (Suc n)
  let ?a = "a[i := a ! i XOR b ! i]"
  from Suc.prems have ia: "i < length a" and ib: "i < length b" by simp_all
  have "xor_from (Suc n) i a b = xor_from n (i + 1) ?a b"
    using ib by simp
  also have "\<dots> = Some (take (i + 1) ?a @ map2 (XOR) (drop (i + 1) ?a) (drop (i + 1) b))"
    using Suc.prems by (intro Suc.IH) simp_all
  also have "take (i + 1) ?a = take i a @ [a ! i XOR b ! i]"
    using ia by (simp add: take_Suc_conv_app_nth)
  also have "drop (i + 1) ?a = drop (i + 1) a"
    by simp
  finally show ?case
    using ia ib by (simp add: Cons_nth_drop_Suc [symmetric])
qed

lemma xor_bytes_Some:
  "length a \<le> length b \<Longrightarrow> xor_bytes a b = Some (map2 (XOR) a b)"
  by (simp add: xor_bytes_def xor_from_Some)

lemma xor_from_None:
  "i + n = length a \<Longrightarrow> length b < length a \<Longrightarrow> i \<le> length b \<Longrightarrow>
   xor_from n i a b = None"
proof (induction n arbitrary: i a)
  case 0
  then show ?case by simp
next
  case (Suc n)
  then show ?case by (cases "i < length b") simp_all
qed

lemma xor_bytes_None:
  "length b < length a \<Longrightarrow> xor_bytes a b = None"
  by (simp add: xor_bytes_def xor_from_None)

lemma map2_xor_cancel:
  fixes S K :: "byte list"
  shows "length S = length K \<Longrightarrow> map2 (XOR) (map2 (XOR) S K) S = K"
  by (induction S K rule: list_induct2) (simp_all add: xor.commute xor.left_commute)


lemma composeServerHello_layout:
  "length S \<le> length K \<Longrightarrow>
   composeServerHello sid S K rnd =
     Some (map2 (XOR) S K,
           [0x02, 0x00, 0x00, 0x76, 0x03, 0x03] @ map2 (XOR) S K @ [0x20] @ sid @
           [0xc0, 0x30, 0x00, 0x00, 0x2e, 0x00, 0x33, 0x00, 0x24, 0x00, 0x1d, 0x00, 0x20] @
           map rnd [0..<32] @ [0x00, 0x2b, 0x00, 0x02, 0x03, 0x04])"
  by (simp add: composeServerHello_def xor_bytes_Some Let_def del: upt_conv_Cons upt.simps)

text \<open>
  Claim C1. For 32-byte buffers \<open>S\<close> (shared secret) and \<open>K\<close> (session key), the 32
  bytes at offset 6 of the ServerHello that \<^verbatim>\<open>composeServerHello\<close> returns, its random
  field, are the byte-wise XOR of \<open>S\<close> and \<open>K\<close>; and \<^verbatim>\<open>xor\<close> of that field with \<open>S\<close>
  gives \<open>K\<close> back.
\<close>

theorem composeServerHello_random:
  "length S = 32 \<Longrightarrow> length K = 32 \<Longrightarrow>
   map_option (take 32 \<circ> drop 6 \<circ> snd) (composeServerHello sid S K rnd) = Some (map2 (XOR) S K) \<and>
   xor_bytes (map2 (XOR) S K) S = Some K"
  by (simp add: composeServerHello_layout xor_bytes_Some map2_xor_cancel
      del: upt_conv_Cons upt.simps)

theorem composeServerHello_random_witness:
  "length (replicate 32 (0x5a :: byte)) = 32 \<and> length (replicate 32 (0x0f :: byte)) = 32 \<and>
   map_option (take 32 \<circ> drop 6 \<circ> snd)
     (composeServerHello [] (replicate 32 0x5a) (replicate 32 0x0f) rnd_zero) =
     Some (replicate 32 0x55) \<and>
   xor_bytes (replicate 32 0x55) (replicate 32 0x5a) = Some (replicate 32 0x0f)"
  using composeServerHello_random [of "replicate 32 0x5a" "replicate 32 0x0f" "[]" rnd_zero]
  by simp

lemma fixed_bytes_agree:
  fixes XA XB sidA sidB RA RB :: "byte list"
  assumes "length XA = 32" "length XB = 32" "length sidA = 32" "length sidB = 32"
    and "length RA = 32" "length RB = 32"
    and "length A = 6" "length C = 13" "length D = 6"
    and "i < 122" and "i \<notin> {6..<38} \<union> {39..<71} \<union> {84..<116}"
  shows "(A @ XA @ [l] @ sidA @ C @ RA @ D) ! i = (A @ XB @ [l] @ sidB @ C @ RB @ D) ! i"
  using assms by (auto simp: nth_append)

lemma sample_lengths:
  "length sample_secret = 32" "length sample_key = 32" "length (sessionId sample_ch) = 32"
  by (simp_all add: sample_secret_def sample_key_def sample_ch_def)

text \<open>
  Claim C5, amended. For any two calls of \<^verbatim>\<open>composeServerHello\<close> with 32-byte session
  ids, shared secrets and session keys, both calls return 122 bytes, and every byte
  outside the random field (offsets 6 to 37), the session id (39 to 70) and the
  key-exchange value of the \<open>key_share\<close> extension (84 to 115, drawn afresh from the
  random generator by each call) is the same in both: type, length, version, session id
  length, cipher suite, compression method, extensions length, the \<open>key_share\<close> header
  and the \<open>supported_versions\<close> extension.
\<close>

theorem composeServerHello_fixed_shape:
  assumes "length sidA = 32" and "length sidB = 32"
    and "length SA = 32" and "length SB = 32" and "length KA = 32" and "length KB = 32"
  shows "\<exists>TA shA TB shB.
           composeServerHello sidA SA KA rndA = Some (TA, shA) \<and>
           composeServerHello sidB SB KB rndB = Some (TB, shB) \<and>
           length shA = 122 \<and> length shB = 122 \<and>
           (\<forall>i<122. i \<notin> {6..<38} \<union> {39..<71} \<union> {84..<116} \<longrightarrow> shA ! i = shB ! i)"
proof -
  let ?A = "[0x02, 0x00, 0x00, 0x76, 0x03, 0x03 :: byte]"
  let ?C = "[0xc0, 0x30, 0x00, 0x00, 0x2e, 0x00, 0x33, 0x00, 0x24, 0x00, 0x1d, 0x00, 0x20 :: byte]"
  let ?D = "[0x00, 0x2b, 0x00, 0x02, 0x03, 0x04 :: byte]"
  let ?shA = "?A @ map2 (XOR) SA KA @ [0x20] @ sidA @ ?C @ map rndA [0..<32] @ ?D"
  let ?shB = "?A @ map2 (XOR) SB KB @ [0x20] @ sidB @ ?C @ map rndB [0..<32] @ ?D"
  have c1: "composeServerHello sidA SA KA rndA = Some (map2 (XOR) SA KA, ?shA)"
    using assms by (simp add: composeServerHello_layout del: upt.simps)
  have c2: "composeServerHello sidB SB KB rndB = Some (map2 (XOR) SB KB, ?shB)"
    using assms by (simp add: composeServerHello_layout del: upt.simps)
  have l1: "length ?shA = 122" using assms by simp
  have l2: "length ?shB = 122" using assms by simp
  have "?shA ! i = ?shB ! i"
    if "i < 122" and "i \<notin> {6..<38} \<union> {39..<71} \<union> {84..<116}" for i
    by (rule fixed_bytes_agree [OF _ _ _ _ _ _ _ _ _ that]) (simp_all add: assms)
  with c1 c2 l1 l2 show ?thesis by blast
qed

theorem composeServerHello_fixed_shape_witness:
  "length (sessionId sample_ch) = 32 \<and> length sample_secret = 32 \<and> length sample_key = 32 \<and>
   (\<exists>TA shA TB shB.
      composeServerHello (sessionId sample_ch) sample_secret sample_key rnd_zero = Some (TA, shA) \<and>
      composeServerHello sample_public sample_key sample_secret rnd_one = Some (TB, shB) \<and>
      length shA = 122 \<and> length shB = 122 \<and>
      (\<forall>i<122. i \<notin> {6..<38} \<union> {39..<71} \<union> {84..<116} \<longrightarrow> shA ! i = shB ! i))"
proof -
  have p: "length sample_public = 32" by (simp add: sample_public_def)
  show ?thesis
    using composeServerHello_fixed_shape [where sidA = "sessionId sample_ch"
        and sidB = sample_public and SA = sample_secret and SB = sample_key
        and KA = sample_key and KB = sample_secret and rndA = rnd_zero and rndB = rnd_one]
    by (simp add: sample_lengths p)
qed

text \<open>
  The claim as written exempts only the random field and the session id. Two calls on
  the same arguments whose random generator answers differently differ at offset 84,
  the first byte of the key-exchange value.
\<close>

theorem composeServerHello_fixed_shape_counterexample:
  "map_option (take 1 \<circ> drop 84 \<circ> snd)
     (composeServerHello (sessionId sample_ch) sample_secret sample_key rnd_zero) = Some [0x00] \<and>
   map_option (take 1 \<circ> drop 84 \<circ> snd)
     (composeServerHello (sessionId sample_ch) sample_secret sample_key rnd_one) = Some [0x01] \<and>
   (84 :: nat) \<notin> {6..<38} \<union> {39..<71}"
proof -
  have le: "length sample_secret \<le> length sample_key"
    by (simp add: sample_lengths)
  have m: "length (map2 (XOR) sample_secret sample_key) = 32"
    by (simp add: sample_lengths)
  have z: "take 1 (map rnd_zero [0..<32]) = [0x00]"
    by (simp add: take_map rnd_zero_def)
  have o: "take 1 (map rnd_one [0..<32]) = [0x01]"
    by (simp add: take_map rnd_one_def)
  show ?thesis
    using z o by (simp add: composeServerHello_layout [OF le] m sample_lengths del: upt.simps)
qed

section \<open>Properties of the extension decoder\<close>

lemma subslice_mid:
  "length pre = lo \<Longrightarrow> hi = lo + length xs \<Longrightarrow> subslice (pre @ xs @ post) lo hi = Some xs"
  by (auto simp: subslice_def)

lemma u16_pair: "u16 [a, b] = Some (unat a * 256 + unat b)"
  by simp

lemma length_entry_bytes: "length (entry_bytes e) = 4 + length (snd e)"
  by (simp add: entry_bytes_def PutUint16_def)

lemma entry_reads:
  fixes e :: entry
  assumes "length pre = p"
  shows "subslice (pre @ entry_bytes e @ post) p (p + 2) = Some [fst (fst e), snd (fst e)]"
    and "subslice (pre @ entry_bytes e @ post) (p + 2) (p + 4) =
           Some (PutUint16 (length (snd e)))"
    and "subslice (pre @ entry_bytes e @ post) (p + 4) (p + 4 + length (snd e)) = Some (snd e)"
    and "p < length (pre @ entry_bytes e @ post)"
proof -
  let ?tag = "[fst (fst e), snd (fst e)]" and ?len = "PutUint16 (length (snd e))"
  have a: "pre @ entry_bytes e @ post = pre @ ?tag @ (?len @ snd e @ post)"
    and b: "pre @ entry_bytes e @ post = (pre @ ?tag) @ ?len @ (snd e @ post)"
    and c: "pre @ entry_bytes e @ post = (pre @ ?tag @ ?len) @ snd e @ post"
    by (simp_all add: entry_bytes_def)
  show "subslice (pre @ entry_bytes e @ post) p (p + 2) = Some ?tag"
    unfolding a by (rule subslice_mid) (simp_all add: assms)
  show "subslice (pre @ entry_bytes e @ post) (p + 2) (p + 4) = Some ?len"
    unfolding b by (rule subslice_mid) (simp_all add: assms length_PutUint16)
  show "subslice (pre @ entry_bytes e @ post) (p + 4) (p + 4 + length (snd e)) = Some (snd e)"
    unfolding c by (rule subslice_mid) (simp_all add: assms length_PutUint16)
  show "p < length (pre @ entry_bytes e @ post)"
    using assms(1) by (simp add: length_entry_bytes)
qed

lemma parseExtensions_loop_entry:
  assumes "length (snd e) < 65536" and "length pre = p"
  shows "parseExtensions_loop (pre @ entry_bytes e @ post) p m =
         parseExtensions_loop (pre @ entry_bytes e @ post) (p + length (entry_bytes e))
           (m(fst e \<mapsto> snd e))"
proof -
  note r = entry_reads [OF assms(2), of e post]
  have n: "u16 (PutUint16 (length (snd e))) = Some (length (snd e))"
    using assms(1) by (rule u16_PutUint16)
  have t: "tag_of [fst (fst e), snd (fst e)] = fst e"
    by (simp add: tag_of_def)
  have l: "p + 4 + length (snd e) = p + length (entry_bytes e)"
    by (simp add: length_entry_bytes)
  show ?thesis
    by (subst parseExtensions_loop.simps)
       (simp only: r n t if_True option.case, simp only: l)
qed

lemma parseExtensions_loop_entries:
  assumes "\<forall>e \<in> set es. length (snd e) < 65536" and "length pre = p"
  shows "parseExtensions_loop (pre @ entries_bytes es @ post) p m =
         parseExtensions_loop (pre @ entries_bytes es @ post) (p + length (entries_bytes es))
           (store_entries es m)"
  using assms
proof (induction es arbitrary: pre p m)
  case Nil
  then show ?case by (simp add: entries_bytes_def store_entries_def)
next
  case (Cons e es)
  let ?input = "pre @ entries_bytes (e # es) @ post"
  have i: "?input = pre @ entry_bytes e @ (entries_bytes es @ post)"
    and j: "?input = (pre @ entry_bytes e) @ entries_bytes es @ post"
    by (simp_all add: entries_bytes_def)
  have "parseExtensions_loop ?input p m =
        parseExtensions_loop ?input (p + length (entry_bytes e)) (m(fst e \<mapsto> snd e))"
    unfolding i using Cons.prems by (intro parseExtensions_loop_entry) simp_all
  also have "\<dots> = parseExtensions_loop ?input
        (p + length (entry_bytes e) + length (entries_bytes es))
        (store_entries es (m(fst e \<mapsto> snd e)))"
    unfolding j using Cons.prems by (intro Cons.IH) simp_all
  finally show ?case
    by (simp add: entries_bytes_def store_entries_def add.assoc)
qed

lemma parseExtensions_loop_end:
  "length input \<le> p \<Longrightarrow> parseExtensions_loop input p m = Return m"
  by (subst parseExtensions_loop.simps) simp

lemma parseExtensions_loop_overrun:
  assumes "overruns rest" and "length pre = p"
  shows "parseExtensions_loop (pre @ rest) p m = Panic m"
proof -
  have ne: "p < length (pre @ rest)"
    using assms by (auto simp: overruns_def)
  show ?thesis
  proof (cases "length rest < 4")
    case True
    then show ?thesis
      using ne assms(2)
      by (subst parseExtensions_loop.simps) (auto simp: subslice_def split: option.splits)
  next
    case False
    then obtain a b c d tl where rest: "rest = a # b # c # d # tl"
      by (cases rest; simp; cases "tl rest"; simp; cases "tl (tl rest)"; simp;
          cases "tl (tl (tl rest))"; simp)
    have short: "length tl < unat c * 256 + unat d"
      using assms(1) False by (simp add: overruns_def rest)
    have a: "pre @ rest = pre @ [a, b] @ (c # d # tl)"
      and b: "pre @ rest = (pre @ [a, b]) @ [c, d] @ tl"
      by (simp_all add: rest)
    have s1: "subslice (pre @ rest) p (p + 2) = Some [a, b]"
      unfolding a by (rule subslice_mid) (simp_all add: assms)
    have s2: "subslice (pre @ rest) (p + 2) (p + 4) = Some [c, d]"
      unfolding b by (rule subslice_mid) (simp_all add: assms)
    have s3: "subslice (pre @ rest) (p + 4) (p + 4 + (unat c * 256 + unat d)) = None"
      using short assms(2) by (simp add: subslice_def rest)
    show ?thesis
      by (subst parseExtensions_loop.simps)
         (simp only: ne s1 s2 s3 u16_pair if_True option.case)
  qed
qed

lemma parseExtensions_complete:
  assumes "\<forall>e \<in> set es. length (snd e) < 65536"
  shows "parseExtensions (entries_bytes es) = (store_entries es Map.empty, None)"
proof -
  have "parseExtensions_loop ([] @ entries_bytes es @ []) 0 Map.empty =
        parseExtensions_loop ([] @ entries_bytes es @ []) (0 + length (entries_bytes es))
          (store_entries es Map.empty)"
    using assms by (intro parseExtensions_loop_entries) simp_all
  then show ?thesis
    by (simp add: parseExtensions_def parseExtensions_loop_end)
qed


lemma extension_block_shape:
  "\<exists>es rest. input = entries_bytes es @ rest \<and> (\<forall>e \<in> set es. length (snd e) < 65536) \<and>
     (rest = [] \<or> overruns rest)"
proof (induction input rule: length_induct)
  case (1 input)
  show ?case
  proof (cases "input = [] \<or> overruns input")
    case True
    then have "input = entries_bytes [] @ input \<and> (\<forall>e \<in> set []. length (snd e) < (65536::nat)) \<and>
        (input = [] \<or> overruns input)"
      by (simp add: entries_bytes_def)
    then show ?thesis by blast
  next
    case False
    then have len4: "4 \<le> length input"
      and fits: "4 + (unat (input ! 2) * 256 + unat (input ! 3)) \<le> length input"
      by (auto simp: overruns_def)
    from len4 obtain a b c d tl where input: "input = a # b # c # d # tl"
      by (cases input; simp; cases "tl input"; simp; cases "tl (tl input)"; simp;
          cases "tl (tl (tl input))"; simp)
    define n where "n = unat c * 256 + unat d"
    have n: "n \<le> length tl" using fits by (simp add: input n_def)
    have "unat c < 2 ^ LENGTH(8)" and "unat d < 2 ^ LENGTH(8)"
      by (rule unsigned_less)+
    then have small: "n < 65536" by (simp add: n_def)
    define e :: entry where "e = ((a, b), take n tl)"
    have eb: "entry_bytes e = a # b # c # d # take n tl"
      using n by (simp add: entry_bytes_def e_def PutUint16_u16 [of c d, folded n_def] min_def)
    have split: "input = entry_bytes e @ drop n tl"
      by (simp add: eb input)
    have "length (drop n tl) < length input"
      by (simp add: input)
    with 1 obtain es rest where
      r: "drop n tl = entries_bytes es @ rest" "\<forall>e \<in> set es. length (snd e) < 65536"
         "rest = [] \<or> overruns rest"
      by blast
    have "input = entries_bytes (e # es) @ rest"
      using split r(1) by (simp add: entries_bytes_def)
    moreover have "\<forall>x \<in> set (e # es). length (snd x) < 65536"
      using r(2) small n by (simp add: e_def)
    ultimately show ?thesis using r(3) by blast
  qed
qed

text \<open>
  Claim C9, amended. On an input made of complete extensions followed by a non-empty
  remainder that is too short for its tag, its length field or its declared body,
  \<^verbatim>\<open>parseExtensions\<close> signals \<open>Malformed Extensions\<close>, and the map it returns with the
  error holds the extensions decoded before the overrun. Every input is such a sequence
  of complete extensions followed by an empty or an overrunning remainder
  (\<open>extension_block_shape\<close> below).
\<close>

theorem parseExtensions_overrun:
  assumes "\<forall>e \<in> set es. length (snd e) < 65536" and "overruns rest"
  shows "parseExtensions (entries_bytes es @ rest) =
           (store_entries es Map.empty, Some Malformed_Extensions)"
proof -
  have "parseExtensions_loop ([] @ entries_bytes es @ rest) 0 Map.empty =
        parseExtensions_loop ([] @ entries_bytes es @ rest) (0 + length (entries_bytes es))
          (store_entries es Map.empty)"
    using assms(1) by (intro parseExtensions_loop_entries) simp_all
  also have "\<dots> = Panic (store_entries es Map.empty)"
    using assms(2) by (simp add: parseExtensions_loop_overrun)
  finally show ?thesis
    by (simp add: parseExtensions_def)
qed

theorem parseExtensions_overrun_witness:
  "list_all (\<lambda>e. length (snd e) < 65536) complete_extensions \<and> overruns dangling_extension \<and>
   parseExtensions (entries_bytes complete_extensions @ dangling_extension) =
     (store_entries complete_extensions Map.empty, Some Malformed_Extensions) \<and>
   store_entries complete_extensions Map.empty (0x00, 0x0a) = Some [0xff]"
proof -
  have a: "\<forall>e \<in> set complete_extensions. length (snd e) < 65536"
    by (simp add: complete_extensions_def)
  have b: "overruns dangling_extension"
    by (simp add: overruns_def dangling_extension_def)
  have c: "store_entries complete_extensions Map.empty (0x00, 0x0a) = Some [0xff]"
    by (simp add: store_entries_def complete_extensions_def)
  show ?thesis
    using parseExtensions_overrun [OF a b] a b c by (simp add: list_all_iff)
qed

text \<open>
  The claim as written has no partial map returned. On the sample block the first
  extension is in the map returned with the error.
\<close>

theorem parseExtensions_partial_map_counterexample:
  "parseExtensions overrun_extensions = ([(0x00, 0x0a) \<mapsto> [0xff]], Some Malformed_Extensions) \<and>
   fst (parseExtensions overrun_extensions) (0x00, 0x0a) = Some [0xff]"
  by (simp add: overrun_extensions_def parseExtensions_def parseExtensions_loop.simps
      subslice_def tag_of_def)

section \<open>Properties of the key-share extractor\<close>

lemma parseKeyShare_loop_end:
  "totalLen \<le> p \<Longrightarrow> parseKeyShare_loop input totalLen p = Some (None, Some X25519_does_not_exist)"
  by (subst parseKeyShare_loop.simps) simp

lemma parseKeyShare_loop_skip:
  assumes "fst e \<noteq> (0x00, 0x1d)" and "length (snd e) < 65536"
    and "length pre = p" and "p < totalLen"
  shows "parseKeyShare_loop (pre @ entry_bytes e @ post) totalLen p =
         parseKeyShare_loop (pre @ entry_bytes e @ post) totalLen (p + length (entry_bytes e))"
proof -
  note r = entry_reads [OF assms(3), of e post]
  have n: "u16 (PutUint16 (length (snd e))) = Some (length (snd e))"
    using assms(2) by (rule u16_PutUint16)
  have t: "([0x00, 0x1d] = [fst (fst e), snd (fst e)]) = False"
    using assms(1) by (cases e) auto
  have l: "p + 4 + length (snd e) = p + length (entry_bytes e)"
    by (simp add: length_entry_bytes)
  show ?thesis
    by (subst parseKeyShare_loop.simps)
       (simp only: r n t assms(4) if_True if_False option.case, simp only: l)
qed

lemma parseKeyShare_loop_skips:
  assumes "\<forall>e \<in> set es. fst e \<noteq> (0x00, 0x1d) \<and> length (snd e) < 65536"
    and "length pre = p" and "p + length (entries_bytes es) < totalLen"
  shows "parseKeyShare_loop (pre @ entries_bytes es @ post) totalLen p =
         parseKeyShare_loop (pre @ entries_bytes es @ post) totalLen
           (p + length (entries_bytes es))"
  using assms
proof (induction es arbitrary: pre p)
  case Nil
  then show ?case by (simp add: entries_bytes_def)
next
  case (Cons e es)
  let ?input = "pre @ entries_bytes (e # es) @ post"
  have i: "?input = pre @ entry_bytes e @ (entries_bytes es @ post)"
    and j: "?input = (pre @ entry_bytes e) @ entries_bytes es @ post"
    and k: "length (entries_bytes (e # es)) = length (entry_bytes e) + length (entries_bytes es)"
    by (simp_all add: entries_bytes_def)
  have "parseKeyShare_loop ?input totalLen p =
        parseKeyShare_loop ?input totalLen (p + length (entry_bytes e))"
    unfolding i using Cons.prems by (intro parseKeyShare_loop_skip) (simp_all add: k)
  also have "\<dots> = parseKeyShare_loop ?input totalLen
        (p + length (entry_bytes e) + length (entries_bytes es))"
    unfolding j using Cons.prems by (intro Cons.IH) (simp_all add: k)
  finally show ?case
    by (simp add: k add.assoc)
qed

lemma parseKeyShare_loop_exhausted:
  assumes "\<forall>e \<in> set es. fst e \<noteq> (0x00, 0x1d) \<and> length (snd e) < 65536"
    and "length pre = p" and "totalLen \<le> p + length (entries_bytes es)"
  shows "parseKeyShare_loop (pre @ entries_bytes es @ post) totalLen p =
         Some (None, Some X25519_does_not_exist)"
  using assms
proof (induction es arbitrary: pre p)
  case Nil
  then show ?case by (simp add: entries_bytes_def parseKeyShare_loop_end)
next
  case (Cons e es)
  show ?case
  proof (cases "p < totalLen")
    case False
    then show ?thesis by (simp add: parseKeyShare_loop_end)
  next
    case True
    let ?input = "pre @ entries_bytes (e # es) @ post"
    have i: "?input = pre @ entry_bytes e @ (entries_bytes es @ post)"
      and j: "?input = (pre @ entry_bytes e) @ entries_bytes es @ post"
      and k: "length (entries_bytes (e # es)) = length (entry_bytes e) + length (entries_bytes es)"
      by (simp_all add: entries_bytes_def)
    have "parseKeyShare_loop ?input totalLen p =
          parseKeyShare_loop ?input totalLen (p + length (entry_bytes e))"
      unfolding i using Cons.prems True by (intro parseKeyShare_loop_skip) simp_all
    also have "\<dots> = Some (None, Some X25519_does_not_exist)"
      unfolding j using Cons.prems by (intro Cons.IH) (simp_all add: k)
    finally show ?thesis .
  qed
qed

lemma parseKeyShare_loop_found:
  assumes "length key = 32" and "length pre = p" and "p < totalLen"
  shows "parseKeyShare_loop (pre @ entry_bytes ((0x00, 0x1d), key) @ post) totalLen p =
         Some (Some key, None)"
proof -
  note r = entry_reads [OF assms(2), of "((0x00, 0x1d), key)" post, simplified fst_conv snd_conv]
  have n: "u16 (PutUint16 (length key)) = Some (length key)"
    using assms(1) by (intro u16_PutUint16) simp
  have c: "(length key \<noteq> 32) = False"
    using assms(1) by simp
  show ?thesis
    by (subst parseKeyShare_loop.simps)
       (simp only: r n c assms(3) if_True if_False option.case refl)
qed

lemma parseKeyShare_loop_wrong_length:
  assumes "n \<noteq> 32" and "n < 65536" and "length pre = p" and "p < totalLen"
  shows "parseKeyShare_loop (pre @ [0x00, 0x1d] @ PutUint16 n @ post) totalLen p =
         Some (None, Some (Key_share_length n))"
proof -
  let ?input = "pre @ [0x00, 0x1d] @ PutUint16 n @ post"
  have b: "?input = (pre @ [0x00, 0x1d]) @ PutUint16 n @ post"
    by simp
  have s1: "subslice ?input p (p + 2) = Some [0x00, 0x1d]"
    by (rule subslice_mid) (simp_all add: assms)
  have s2: "subslice ?input (p + 2) (p + 4) = Some (PutUint16 n)"
    unfolding b by (rule subslice_mid) (simp_all add: assms length_PutUint16)
  have n: "u16 (PutUint16 n) = Some n"
    using assms(2) by (rule u16_PutUint16)
  show ?thesis
    by (subst parseKeyShare_loop.simps)
       (simp only: s1 s2 n assms(1,4) if_True not_False_eq_True option.case refl)
qed

lemma parseKeyShare_header:
  "parseKeyShare ([t0, t1] @ body) =
     (case parseKeyShare_loop ([t0, t1] @ body) (unat t0 * 256 + unat t1) 2 of
        None \<Rightarrow> (None, Some Malformed_key_share)
      | Some r \<Rightarrow> r)"
proof -
  have "subslice ([t0, t1] @ body) 0 2 = Some [t0, t1]"
    by (simp add: subslice_def)
  then show ?thesis
    by (simp add: parseKeyShare_def parseKeyShare_body_def)
qed

text \<open>
  Claim C3. Take a \<open>key_share\<close> body: two bytes \<open>t0 t1\<close> declaring the total length,
  then entries of groups other than \<open>001d\<close>. If the next entry is of group \<open>001d\<close>,
  starts before the declared total length and has a key of exactly 32 bytes,
  \<^verbatim>\<open>parseKeyShare\<close> returns those 32 bytes unchanged; if its declared length \<open>n\<close> is
  not 32, \<^verbatim>\<open>parseKeyShare\<close> fails with \<open>key share length should be 32, instead of n\<close>;
  and if the entries reach the declared total length, so that the scan ends without
  meeting group \<open>001d\<close>, it fails with \<open>x25519 does not exist\<close>.
\<close>

theorem parseKeyShare_x25519:
  assumes "\<forall>e \<in> set es. fst e \<noteq> (0x00, 0x1d) \<and> length (snd e) < 65536"
  shows
    "(2 + length (entries_bytes es) < unat t0 * 256 + unat t1 \<and> length key = 32 \<longrightarrow>
        parseKeyShare ([t0, t1] @ entries_bytes es @ entry_bytes ((0x00, 0x1d), key) @ rest) =
          (Some key, None)) \<and>
     (2 + length (entries_bytes es) < unat t0 * 256 + unat t1 \<and> n \<noteq> 32 \<and> n < 65536 \<longrightarrow>
        parseKeyShare ([t0, t1] @ entries_bytes es @ [0x00, 0x1d] @ PutUint16 n @ rest) =
          (None, Some (Key_share_length n))) \<and>
     (unat t0 * 256 + unat t1 \<le> 2 + length (entries_bytes es) \<longrightarrow>
        parseKeyShare ([t0, t1] @ entries_bytes es @ rest) =
          (None, Some X25519_does_not_exist))"
proof (intro conjI impI)
  let ?T = "unat t0 * 256 + unat t1"
  {
    assume a: "2 + length (entries_bytes es) < ?T \<and> length key = 32"
    let ?tail = "entry_bytes ((0x00, 0x1d), key) @ rest"
    let ?input = "[t0, t1] @ entries_bytes es @ ?tail"
    have s: "parseKeyShare_loop ?input ?T 2 =
          parseKeyShare_loop ?input ?T (2 + length (entries_bytes es))"
      using assms a by (intro parseKeyShare_loop_skips) simp_all
    have f: "parseKeyShare_loop (([t0, t1] @ entries_bytes es) @ ?tail) ?T
          (2 + length (entries_bytes es)) = Some (Some key, None)"
      using a by (intro parseKeyShare_loop_found) simp_all
    have "parseKeyShare_loop ?input ?T 2 = Some (Some key, None)"
      using s f by simp
    then show "parseKeyShare ?input = (Some key, None)"
      by (simp only: parseKeyShare_header option.case)
  }
  {
    assume a: "2 + length (entries_bytes es) < ?T \<and> n \<noteq> 32 \<and> n < 65536"
    let ?tail = "[0x00, 0x1d] @ PutUint16 n @ rest"
    let ?input = "[t0, t1] @ entries_bytes es @ ?tail"
    have s: "parseKeyShare_loop ?input ?T 2 =
          parseKeyShare_loop ?input ?T (2 + length (entries_bytes es))"
      using assms a by (intro parseKeyShare_loop_skips) simp_all
    have f: "parseKeyShare_loop (([t0, t1] @ entries_bytes es) @ ?tail) ?T
          (2 + length (entries_bytes es)) = Some (None, Some (Key_share_length n))"
      using a by (intro parseKeyShare_loop_wrong_length) simp_all
    have "parseKeyShare_loop ?input ?T 2 = Some (None, Some (Key_share_length n))"
      using s f by simp
    then show "parseKeyShare ?input = (None, Some (Key_share_length n))"
      by (simp only: parseKeyShare_header option.case)
  }
  {
    assume a: "?T \<le> 2 + length (entries_bytes es)"
    let ?input = "[t0, t1] @ entries_bytes es @ rest"
    have "parseKeyShare_loop ?input ?T 2 = Some (None, Some X25519_does_not_exist)"
      using assms a by (intro parseKeyShare_loop_exhausted) simp_all
    then show "parseKeyShare ?input = (None, Some X25519_does_not_exist)"
      by (simp only: parseKeyShare_header option.case)
  }
qed

theorem parseKeyShare_x25519_witness:
  "list_all (\<lambda>e. fst e \<noteq> (0x00, 0x1d) \<and> length (snd e) < 65536) other_shares \<and>
   2 + length (entries_bytes other_shares) < unat (0x00 :: byte) * 256 + unat (0x2b :: byte) \<and>
   length sample_public = 32 \<and>
   parseKeyShare ([0x00, 0x2b] @ entries_bytes other_shares @
       entry_bytes ((0x00, 0x1d), sample_public) @ []) = (Some sample_public, None) \<and>
   2 + length (entries_bytes other_shares) < unat (0x00 :: byte) * 256 + unat (0x0c :: byte) \<and>
   (1 :: nat) \<noteq> 32 \<and> (1 :: nat) < 65536 \<and>
   parseKeyShare ([0x00, 0x0c] @ entries_bytes other_shares @ [0x00, 0x1d] @ PutUint16 1 @
       [0x07]) = (None, Some (Key_share_length 1)) \<and>
   unat (0x00 :: byte) * 256 + unat (0x07 :: byte) \<le> 2 + length (entries_bytes other_shares) \<and>
   parseKeyShare ([0x00, 0x07] @ entries_bytes other_shares @ []) =
     (None, Some X25519_does_not_exist)"
proof -
  have a: "\<forall>e \<in> set other_shares. fst e \<noteq> (0x00, 0x1d) \<and> length (snd e) < 65536"
    by (simp add: other_shares_def)
  have l: "length (entries_bytes other_shares) = 7"
    by (simp add: other_shares_def entries_bytes_def length_entry_bytes)
  have p: "length sample_public = 32"
    by (simp add: sample_public_def)
  show ?thesis
    using parseKeyShare_x25519 [OF a, of "0x00" "0x2b" sample_public "[]" 1]
      parseKeyShare_x25519 [OF a, of "0x00" "0x0c" sample_public "[0x07]" 1]
      parseKeyShare_x25519 [OF a, of "0x00" "0x07" sample_public "[]" 1]
      a p
    by (simp add: l list_all_iff)
qed

section \<open>Properties of the ClientHello parser\<close>

lemmas eval_defs = parseClientHello_def parseClientHello_body_def subslice_def slice_from_def
  byte_at_def parseExtensions_def parseExtensions_loop.simps tag_of_def Let_def

lemma parse_sample_hello: "parseClientHello sample_hello = (Some sample_ch, None)"
  by (simp add: sample_hello_def sample_ch_def sample_key_share_def eval_defs)

lemma parseKeyShare_sample: "parseKeyShare sample_key_share = (Some sample_public, None)"
  by (simp add: sample_key_share_def sample_public_def parseKeyShare_def parseKeyShare_body_def
      parseKeyShare_loop.simps subslice_def)

lemma parse_short_packet: "parseClientHello short_packet = (None, Some Malformed_ClientHello)"
  by (simp add: short_packet_def parseClientHello_def parseClientHello_body_def)


lemma take3_drop:
  assumes "n + 3 \<le> length xs"
  shows "take 3 (drop n xs) = [xs ! n, xs ! (n + 1), xs ! (n + 2)]"
proof -
  have "drop n xs = xs ! n # drop (Suc n) xs"
    using assms by (simp add: Cons_nth_drop_Suc)
  also have "drop (Suc n) xs = xs ! (n + 1) # drop (Suc (Suc n)) xs"
    using assms by (simp add: Cons_nth_drop_Suc)
  also have "drop (Suc (Suc n)) xs = xs ! (n + 2) # drop (Suc (Suc (Suc n))) xs"
    using assms by (simp add: Cons_nth_drop_Suc)
  finally show ?thesis by simp
qed

text \<open>
  Claim C7. Whenever the three bytes of the handshake length field (offsets 6 to 8 of
  the record) declare a length different from the number of bytes that follow them,
  \<^verbatim>\<open>parseClientHello\<close> returns no ClientHello and an error: \<open>Hello length doesn't match\<close>
  for handshake type 1, and \<open>Not a ClientHello\<close> for any other type, whose check comes
  first.
\<close>

theorem parseClientHello_length_mismatch:
  assumes "9 \<le> length data"
    and "unat (data ! 6) * 65536 + unat (data ! 7) * 256 + unat (data ! 8) \<noteq> length data - 9"
  shows "parseClientHello data =
           (None, Some (if data ! 5 = 0x01 then Hello_length_mismatch else Not_a_ClientHello))"
proof -
  have "take 3 (drop 6 data) = [data ! 6, data ! 7, data ! 8]"
    using assms(1) take3_drop [of 6 data] by simp
  moreover have "4 \<le> length data - 5" and "length data - 5 - 4 = length data - 9"
    using assms(1) by simp_all
  ultimately show ?thesis
    using assms
    by (simp add: parseClientHello_def parseClientHello_body_def slice_from_def byte_at_def
        subslice_def)
qed

theorem parseClientHello_length_mismatch_witness:
  "9 \<le> length truncated_hello \<and>
   unat (truncated_hello ! 6) * 65536 + unat (truncated_hello ! 7) * 256 +
     unat (truncated_hello ! 8) \<noteq> length truncated_hello - 9 \<and>
   parseClientHello truncated_hello = (None, Some Hello_length_mismatch) \<and>
   9 \<le> length server_hello \<and>
   unat (server_hello ! 6) * 65536 + unat (server_hello ! 7) * 256 +
     unat (server_hello ! 8) \<noteq> length server_hello - 9 \<and>
   parseClientHello server_hello = (None, Some Not_a_ClientHello)"
  using parseClientHello_length_mismatch [of truncated_hello]
    parseClientHello_length_mismatch [of server_hello]
  by (simp add: truncated_hello_def server_hello_def)


lemma parseClientHello_fields:
  assumes "parseClientHello data = (Some ch, e)"
  shows "length (clientVersion ch) = 2 \<and> length (random_ch ch) = 32 \<and>
         length (sessionId ch) = sessionIdLen ch \<and>
         length (cipherSuites ch) = cipherSuitesLen ch \<and>
         length (compressionMethods ch) = compressionMethodsLen ch \<and>
         49 + sessionIdLen ch + cipherSuitesLen ch + compressionMethodsLen ch \<le> length data"
proof -
  from assms have "parseClientHello_body data = Some (Some ch, e)"
    by (simp add: parseClientHello_def split: option.splits)
  then show ?thesis
    by (auto simp: parseClientHello_body_def Let_def bind_eq_Some_conv subslice_def
        slice_from_def case_prod_beta split: if_splits)
qed




section \<open>Properties of the reply\<close>

lemma composeReply_layout:
  assumes "length S \<le> length K"
  shows "composeReply (Some ch) S K rnd =
     Some (map2 (XOR) S K,
           [0x16, 0x03, 0x03] @
           PutUint16 ((58 + (length S + length (sessionId ch))) mod 65536) @
           ([0x02, 0x00, 0x00, 0x76, 0x03, 0x03] @ map2 (XOR) S K @ [0x20] @ sessionId ch @
            [0xc0, 0x30, 0x00, 0x00, 0x2e, 0x00, 0x33, 0x00, 0x24, 0x00, 0x1d, 0x00, 0x20] @
            map rnd [0..<32] @ [0x00, 0x2b, 0x00, 0x02, 0x03, 0x04]) @
           [0x14, 0x03, 0x03, 0x00, 0x01, 0x01])"
  using assms
  by (simp add: composeReply_def composeServerHello_layout addRecordLayer_exact PutUint16_def
      del: upt.simps)

text \<open>
  Claim C4, amended. For every ClientHello that \<^verbatim>\<open>parseClientHello\<close> accepts with a 32-byte
  session id, and every 32-byte shared secret and session key, the reply of
  \<^verbatim>\<open>composeReply\<close> starts with the handshake record header \<open>16 03 03 00 7A\<close> (declared
  length 122, the length of the ServerHello), followed by a ServerHello that begins
  \<open>02 00 00 76\<close>.
\<close>

theorem composeReply_header:
  assumes "parseClientHello data = (Some ch, None)" and "sessionIdLen ch = 32"
    and "length S = 32" and "length K = 32"
  shows "map_option (take 9 \<circ> snd) (composeReply (Some ch) S K rnd) =
           Some [0x16, 0x03, 0x03, 0x00, 0x7a, 0x02, 0x00, 0x00, 0x76]"
proof -
  have "length (sessionId ch) = 32"
    using assms(1,2) parseClientHello_fields [of data ch None] by simp
  then show ?thesis
    using assms(3,4) by (simp add: composeReply_layout PutUint16_def del: upt.simps)
qed

theorem composeReply_header_witness:
  "parseClientHello sample_hello = (Some sample_ch, None) \<and> sessionIdLen sample_ch = 32 \<and>
   length sample_secret = 32 \<and> length sample_key = 32 \<and>
   map_option (take 9 \<circ> snd) (composeReply (Some sample_ch) sample_secret sample_key rnd_one) =
     Some [0x16, 0x03, 0x03, 0x00, 0x7a, 0x02, 0x00, 0x00, 0x76]"
  using composeReply_header [of sample_hello sample_ch sample_secret sample_key rnd_one]
  by (simp add: parse_sample_hello sample_lengths) (simp add: sample_ch_def)

text \<open>
  The claim as written gives the record length as \<open>0x4C\<close>. On the sample ClientHello,
  which parses and carries a 32-byte x25519 key share and a 32-byte session id, the
  header's length bytes are \<open>00 7A\<close>.
\<close>

theorem composeReply_header_counterexample:
  "parseClientHello sample_hello = (Some sample_ch, None) \<and>
   extensions sample_ch (0x00, 0x33) = Some sample_key_share \<and>
   parseKeyShare sample_key_share = (Some sample_public, None) \<and>
   length sample_public = 32 \<and> length (sessionId sample_ch) = 32 \<and>
   length sample_secret = 32 \<and> length sample_key = 32 \<and>
   map_option (take 5 \<circ> snd) (composeReply (Some sample_ch) sample_secret sample_key rnd_zero) =
     Some [0x16, 0x03, 0x03, 0x00, 0x7a] \<and>
   map_option (take 5 \<circ> snd) (composeReply (Some sample_ch) sample_secret sample_key rnd_zero) \<noteq>
     Some [0x16, 0x03, 0x03, 0x00, 0x4c]"
proof -
  have le: "length sample_secret \<le> length sample_key"
    by (simp add: sample_lengths)
  have a: "map_option (take 5 \<circ> snd)
      (composeReply (Some sample_ch) sample_secret sample_key rnd_zero) =
     Some [0x16, 0x03, 0x03, 0x00, 0x7a]"
    using le by (simp add: composeReply_layout PutUint16_def sample_lengths del: upt.simps)
  have b: "map_option (take 5 \<circ> snd)
      (composeReply (Some sample_ch) sample_secret sample_key rnd_zero) \<noteq>
     Some [0x16, 0x03, 0x03, 0x00, 0x4c]"
    unfolding a by simp
  have c: "extensions sample_ch (0x00, 0x33) = Some sample_key_share"
    by (simp add: sample_ch_def)
  have d: "length sample_public = 32"
    by (simp add: sample_public_def)
  show ?thesis
    using a b c d parse_sample_hello parseKeyShare_sample sample_lengths by blast
qed




section \<open>Properties of the connection preparer\<close>

text \<open>
  Claim C8. \<^verbatim>\<open>PrepareConnection\<close> reports each failure by one of three errors and gives
  no reply sender with it: \<open>ErrBadClientHello\<close> when \<^verbatim>\<open>parseClientHello\<close> returns an
  error; \<open>ErrNotCloak\<close>, whatever error the authentication returned, when parsing
  succeeds and authentication fails; \<open>ErrBadProxyMethod\<close> when authentication succeeds
  and the proxy method it names is not a key of \<^verbatim>\<open>ProxyBook\<close>. Otherwise there is no
  error, and the reply sender holds the parsed ClientHello and the shared secret.
\<close>

theorem PrepareConnection_errors:
  "(snd (parseClientHello firstPacket) \<noteq> None \<longrightarrow>
      err (PrepareConnection firstPacket sta TouchStone) = Some ErrBadClientHello \<and>
      finisher (PrepareConnection firstPacket sta TouchStone) = None) \<and>
   (parseClientHello firstPacket = (ch, None) \<and> t_err (TouchStone ch sta) \<noteq> None \<longrightarrow>
      err (PrepareConnection firstPacket sta TouchStone) = Some ErrNotCloak \<and>
      finisher (PrepareConnection firstPacket sta TouchStone) = None) \<and>
   (parseClientHello firstPacket = (ch, None) \<and> t_err (TouchStone ch sta) = None \<and>
    ProxyBook sta (t_proxyMethod (TouchStone ch sta)) = None \<longrightarrow>
      err (PrepareConnection firstPacket sta TouchStone) = Some ErrBadProxyMethod \<and>
      finisher (PrepareConnection firstPacket sta TouchStone) = None) \<and>
   (parseClientHello firstPacket = (ch, None) \<and> t_err (TouchStone ch sta) = None \<and>
    ProxyBook sta (t_proxyMethod (TouchStone ch sta)) \<noteq> None \<longrightarrow>
      err (PrepareConnection firstPacket sta TouchStone) = None \<and>
      finisher (PrepareConnection firstPacket sta TouchStone) =
        Some (Finisher ch (t_sharedSecret (TouchStone ch sta))))"
  by (cases "parseClientHello firstPacket")
     (auto simp: PrepareConnection_def Let_def split: option.splits)

theorem PrepareConnection_errors_witness:
  "snd (parseClientHello short_packet) \<noteq> None \<and>
   err (PrepareConnection short_packet state_shadowsocks touch_accept) = Some ErrBadClientHello \<and>
   finisher (PrepareConnection short_packet state_shadowsocks touch_accept) = None \<and>
   parseClientHello sample_hello = (Some sample_ch, None) \<and>
   t_err (touch_reject (Some sample_ch) state_shadowsocks) \<noteq> None \<and>
   err (PrepareConnection sample_hello state_shadowsocks touch_reject) = Some ErrNotCloak \<and>
   finisher (PrepareConnection sample_hello state_shadowsocks touch_reject) = None \<and>
   t_err (touch_accept (Some sample_ch) state_no_proxy) = None \<and>
   ProxyBook state_no_proxy (t_proxyMethod (touch_accept (Some sample_ch) state_no_proxy)) = None \<and>
   err (PrepareConnection sample_hello state_no_proxy touch_accept) = Some ErrBadProxyMethod \<and>
   finisher (PrepareConnection sample_hello state_no_proxy touch_accept) = None \<and>
   ProxyBook state_shadowsocks (t_proxyMethod (touch_accept (Some sample_ch) state_shadowsocks)) \<noteq> None \<and>
   err (PrepareConnection sample_hello state_shadowsocks touch_accept) = None \<and>
   finisher (PrepareConnection sample_hello state_shadowsocks touch_accept) =
     Some (Finisher (Some sample_ch) sample_secret)"
  using PrepareConnection_errors [of short_packet state_shadowsocks touch_accept None]
    PrepareConnection_errors [of sample_hello state_shadowsocks touch_reject "Some sample_ch"]
    PrepareConnection_errors [of sample_hello state_no_proxy touch_accept "Some sample_ch"]
    PrepareConnection_errors [of sample_hello state_shadowsocks touch_accept "Some sample_ch"]
  by (simp add: parse_short_packet parse_sample_hello touch_reject_def touch_accept_def
      state_no_proxy_def state_shadowsocks_def)

end
